theory Spec2Isabelle
  imports Complex_Main
begin

section \<open>Data model\<close>

text \<open>
  The script \<^verbatim>\<open>wiki.py\<close> has three stages: \<^verbatim>\<open>get_revision_data\<close> turns the
  chronological revisions of a page into size deltas, \<^verbatim>\<open>aggregate_user_stats\<close>
  groups the deltas by user, and \<^verbatim>\<open>create_html_report\<close> renders the ranked
  statistics.

  A revision is the dictionary the MediaWiki client yields for \<^verbatim>\<open>prop='user|size'\<close>;
  both keys may be missing (the source reads them with \<^verbatim>\<open>rev.get\<close>), so both fields
  are optional. Sizes are Python integers, hence \<^typ>\<open>int\<close>.
\<close>

record revision =
  rev_user :: "string option"
  rev_size :: "int option"

text \<open>An entry of \<^verbatim>\<open>contribution_data\<close>: the dictionary with keys \<^verbatim>\<open>'user'\<close> and \<^verbatim>\<open>'change'\<close>.\<close>

record contribution =
  user :: string
  change :: int

text \<open>
  A value of \<^verbatim>\<open>user_stats\<close>: the dictionary that the \<^verbatim>\<open>defaultdict\<close> factory creates
  with all three counters at 0.
\<close>

record stats =
  edits :: int
  text_added :: int
  text_removed :: int

text \<open>
  An entry of \<^verbatim>\<open>processed_stats\<close>: the keys \<^verbatim>\<open>'user'\<close> and \<^verbatim>\<open>'percentage'\<close> followed by
  the three counters spread in by \<^verbatim>\<open>**stats\<close>. The key \<^verbatim>\<open>'user'\<close> is the field
  \<open>stat_user\<close> here. Python computes the percentage as a binary double; the
  model keeps the exact quotient, a rational number.
\<close>

record user_data = stats +
  stat_user :: string
  percentage :: rat

datatype py_error = ZeroDivisionError

section \<open>Stage 1: size deltas of the revisions\<close>

text \<open>
  The body of the \<^verbatim>\<open>for rev in page.revisions(...)\<close> loop of \<^verbatim>\<open>get_revision_data\<close>.
  The loop state is the list \<^verbatim>\<open>contribution_data\<close> and the running
  \<^verbatim>\<open>previous_size\<close>.
\<close>

text \<open>The two reads \<^verbatim>\<open>rev.get('size', 0)\<close> and \<^verbatim>\<open>rev.get('user', 'Unknown')\<close>.\<close>

definition get_size :: "revision \<Rightarrow> int" where
  "get_size r = (case rev_size r of None \<Rightarrow> 0 | Some s \<Rightarrow> s)"

definition get_user :: "revision \<Rightarrow> string" where
  "get_user r = (case rev_user r of None \<Rightarrow> ''Unknown'' | Some u \<Rightarrow> u)"

definition revision_step :: "contribution list \<times> int \<Rightarrow> revision \<Rightarrow> contribution list \<times> int" where
  "revision_step st r =
     (let contribution_data = fst st;
          previous_size = snd st;
          current_size = get_size r;
          size_difference = current_size - previous_size
      in (contribution_data @ [\<lparr>user = get_user r, change = size_difference\<rparr>],
          current_size))"

text \<open>
  \<^verbatim>\<open>get_revision_data\<close> from the point where the revisions are at hand: the list starts
  empty, \<^verbatim>\<open>previous_size\<close> starts at 0, and the list is what is returned. Connecting
  to the wiki and fetching the page happen before the loop and are not part of the
  model; the argument is the sequence that \<^verbatim>\<open>page.revisions(dir='newer')\<close> yields.
\<close>

definition get_revision_data :: "revision list \<Rightarrow> contribution list" where
  "get_revision_data revisions = fst (foldl revision_step ([], 0) revisions)"

section \<open>Stage 2: statistics per user\<close>

definition new_stats :: stats where
  "new_stats = \<lparr>edits = 0, text_added = 0, text_removed = 0\<rparr>"

text \<open>The three updates the loop body makes to \<^verbatim>\<open>user_stats[user]\<close>.\<close>

definition count_change :: "int \<Rightarrow> stats \<Rightarrow> stats" where
  "count_change c s =
     (let s1 = s\<lparr>edits := edits s + 1\<rparr>
      in if c > 0 then s1\<lparr>text_added := text_added s1 + c\<rparr>
         else s1\<lparr>text_removed := text_removed s1 + \<bar>c\<bar>\<rparr>)"

text \<open>
  \<^verbatim>\<open>user_stats\<close> is a \<^verbatim>\<open>defaultdict\<close>. A Python dictionary iterates in the order in
  which its keys were first inserted, and the ranking below depends on that order, so
  the dictionary is an association list in insertion order: a known user is updated
  in place, an unknown user is appended with fresh counters.
\<close>

fun update_user :: "string \<Rightarrow> int \<Rightarrow> (string \<times> stats) list \<Rightarrow> (string \<times> stats) list" where
  "update_user u c [] = [(u, count_change c new_stats)]"
| "update_user u c ((k, s) # kvs) =
     (if k = u then (k, count_change c s) # kvs else (k, s) # update_user u c kvs)"

definition collect_user_stats :: "contribution list \<Rightarrow> (string \<times> stats) list" where
  "collect_user_stats contribution_data =
     foldl (\<lambda>user_stats r. update_user (user r) (change r) user_stats) [] contribution_data"

definition total_text_added :: "(string \<times> stats) list \<Rightarrow> int" where
  "total_text_added user_stats = sum_list (map (\<lambda>kv. text_added (snd kv)) user_stats)"

text \<open>Python's \<^verbatim>\<open>/\<close> on integers raises on a zero divisor.\<close>

definition true_div :: "int \<Rightarrow> int \<Rightarrow> py_error + rat" where
  "true_div a b = (if b = 0 then Inl ZeroDivisionError else Inr (of_int a / of_int b))"

text \<open>
  The conditional expression
  \<^verbatim>\<open>(stats['text_added'] / total_text_added) * 100 if total_text_added > 0 else 0\<close>.
\<close>

definition percentage_of :: "int \<Rightarrow> int \<Rightarrow> py_error + rat" where
  "percentage_of added total_added =
     (if total_added > 0
      then (case true_div added total_added of Inl e \<Rightarrow> Inl e | Inr q \<Rightarrow> Inr (q * 100))
      else Inr 0)"

text \<open>The loop over \<^verbatim>\<open>user_stats.items()\<close> that fills \<^verbatim>\<open>processed_stats\<close>.\<close>

fun process_stats :: "int \<Rightarrow> (string \<times> stats) list \<Rightarrow> py_error + user_data list" where
  "process_stats total_added [] = Inr []"
| "process_stats total_added ((u, s) # kvs) =
     (case percentage_of (text_added s) total_added of
        Inl e \<Rightarrow> Inl e
      | Inr p \<Rightarrow>
          (case process_stats total_added kvs of
             Inl e \<Rightarrow> Inl e
           | Inr rows \<Rightarrow>
               Inr (\<lparr>edits = edits s, text_added = text_added s, text_removed = text_removed s,
                     stat_user = u, percentage = p\<rparr> # rows)))"

text \<open>
  \<^verbatim>\<open>processed_stats.sort(key=lambda x: x['percentage'], reverse=True)\<close>. Python's sort
  is stable, also with \<^verbatim>\<open>reverse=True\<close>: it reverses the list, sorts it stably in
  ascending order of the key and reverses the result.
\<close>

definition sort_reverse :: "('a \<Rightarrow> 'k::linorder) \<Rightarrow> 'a list \<Rightarrow> 'a list" where
  "sort_reverse key xs = rev (sort_key key (rev xs))"

definition aggregate_user_stats :: "contribution list \<Rightarrow> py_error + user_data list" where
  "aggregate_user_stats contribution_data =
     (let user_stats = collect_user_stats contribution_data;
          total_added = total_text_added user_stats
      in if total_added = 0 then Inr []
         else (case process_stats total_added user_stats of
                 Inl e \<Rightarrow> Inl e
               | Inr processed_stats \<Rightarrow> Inr (sort_reverse percentage processed_stats)))"

section \<open>Stage 3: the report\<close>

subsection \<open>Escaping and number formats of the Python library\<close>

text \<open>
  \<^verbatim>\<open>str.replace\<close> with a pattern of one character: every occurrence of the
  character is replaced, everything else is kept.
\<close>

definition replace_char :: "char \<Rightarrow> string \<Rightarrow> string \<Rightarrow> string" where
  "replace_char c new s = concat (map (\<lambda>x. if x = c then new else [x]) s)"

text \<open>
  \<^verbatim>\<open>html.escape(s)\<close> with its default \<^verbatim>\<open>quote=True\<close>: five replacements in the
  library's order, the ampersand first. A string is a list of bytes here (the report
  is written as UTF-8); the five characters are ASCII, and no byte of a longer UTF-8
  sequence is ASCII.
\<close>

definition html_escape :: "string \<Rightarrow> string" where
  "html_escape s =
     replace_char (CHR 0x27) ''&#x27;''
       (replace_char (CHR 0x22) ''&quot;''
         (replace_char (CHR ''>'') ''&gt;''
           (replace_char (CHR ''<'') ''&lt;''
             (replace_char (CHR ''&'') ''&amp;'' s))))"

text \<open>The decimal digit for a number below 10.\<close>

definition digit_char :: "nat \<Rightarrow> char" where
  "digit_char d = ''0123456789'' ! d"

fun decimal :: "nat \<Rightarrow> string" where
  "decimal n = (if n < 10 then [digit_char n] else decimal (n div 10) @ [digit_char (n mod 10)])"

declare decimal.simps [simp del]

text \<open>
  The format \<^verbatim>\<open>{n:,}\<close> of an integer: its decimal digits with a comma before every
  group of three, counted from the right, behind the sign. \<open>group_thousands\<close> works
  on the reversed digits.
\<close>

fun group_thousands :: "string \<Rightarrow> string" where
  "group_thousands (a # b # c # d # ds) = a # b # c # CHR '','' # group_thousands (d # ds)"
| "group_thousands ds = ds"

definition format_comma :: "int \<Rightarrow> string" where
  "format_comma n =
     (if n < 0 then ''-'' else []) @ rev (group_thousands (rev (decimal (nat \<bar>n\<bar>))))"

text \<open>
  The format \<^verbatim>\<open>{x:.2f}\<close>: the sign, the integer part, a point and two digits,
  rounded to the nearest hundredth with ties to the even one. Python rounds the
  binary double; the model rounds the exact rational that stands for it.
\<close>

definition round_half_even :: "rat \<Rightarrow> int" where
  "round_half_even x =
     (let f = \<lfloor>x\<rfloor>; d = x - of_int f
      in if d < 1 / 2 then f else if 1 / 2 < d then f + 1 else if even f then f else f + 1)"

definition format_2f :: "rat \<Rightarrow> string" where
  "format_2f x =
     (let n = nat (round_half_even (\<bar>x\<bar> * 100))
      in (if x < 0 then ''-'' else []) @ decimal (n div 100) @ ''.'' @
         [digit_char (n mod 100 div 10), digit_char (n mod 10)])"

subsection \<open>The fixed text of the two templates\<close>

text \<open>
  The literal text of the row template between its seven placeholders, and of the
  page template between its three, line by line as in the source (the doubled braces
  of the f-string are single braces in its value).
\<close>

definition row_text_1 :: string where
  \<open>row_text_1 =
     ''\<newline>'' @
     ''        <tr>\<newline>'' @
     ''            <td><a href="https://en.wikipedia.org/wiki/User:''\<close>

definition row_text_2 :: string where
  \<open>row_text_2 =
     ''" target="_blank">''\<close>

definition row_text_3 :: string where
  \<open>row_text_3 =
     ''</a></td>\<newline>'' @
     ''            <td>\<newline>'' @
     ''                <div class="progress-bar-container">\<newline>'' @
     ''                    <div class="progress-bar" style="width: ''\<close>

definition row_text_4 :: string where
  \<open>row_text_4 =
     ''%;"></div>\<newline>'' @
     ''                </div>\<newline>'' @
     ''            </td>\<newline>'' @
     ''            <td class="percentage-label">''\<close>

definition row_text_5 :: string where
  \<open>row_text_5 =
     ''%</td>\<newline>'' @
     ''            <td class="number">''\<close>

definition row_text_6 :: string where
  \<open>row_text_6 =
     ''</td>\<newline>'' @
     ''            <td class="number added">''\<close>

definition row_text_7 :: string where
  \<open>row_text_7 =
     ''</td>\<newline>'' @
     ''            <td class="number removed">''\<close>

definition row_text_8 :: string where
  \<open>row_text_8 =
     ''</td>\<newline>'' @
     ''        </tr>\<newline>'' @
     ''        ''\<close>

definition template_text_1 :: string where
  \<open>template_text_1 =
     ''\<newline>'' @
     ''<!DOCTYPE html>\<newline>'' @
     ''<html lang="en">\<newline>'' @
     ''<head>\<newline>'' @
     ''    <meta charset="UTF-8">\<newline>'' @
     ''    <meta name="viewport" content="width=device-width, initial-scale=1.0">\<newline>'' @
     ''    <title>Wikipedia Contribution Report: ''\<close>

definition template_text_2 :: string where
  \<open>template_text_2 =
     ''</title>\<newline>'' @
     ''    <style>\<newline>'' @
     ''        body {\<newline>'' @
     ''            font-family: -apple-system, BlinkMacSystemFont, "Segoe UI", Roboto, Helvetica, Arial, sans-serif;\<newline>'' @
     ''            background-color: #f8f9fa;\<newline>'' @
     ''            color: #212529;\<newline>'' @
     ''            margin: 0;\<newline>'' @
     ''            padding: 20px;\<newline>'' @
     ''        }\<newline>'' @
     ''        .container {\<newline>'' @
     ''            max-width: 960px;\<newline>'' @
     ''            margin: auto;\<newline>'' @
     ''            background-color: #ffffff;\<newline>'' @
     ''            border-radius: 8px;\<newline>'' @
     ''            box-shadow: 0 4px 8px rgba(0,0,0,0.05);\<newline>'' @
     ''            padding: 30px;\<newline>'' @
     ''        }\<newline>'' @
     ''        h1 {\<newline>'' @
     ''            color: #343a40;\<newline>'' @
     ''            border-bottom: 2px solid #dee2e6;\<newline>'' @
     ''            padding-bottom: 10px;\<newline>'' @
     ''            margin-top: 0;\<newline>'' @
     ''        }\<newline>'' @
     ''        p.summary {\<newline>'' @
     ''            font-size: 1.1em;\<newline>'' @
     ''            color: #6c757d;\<newline>'' @
     ''        }\<newline>'' @
     ''        table {\<newline>'' @
     ''            width: 100%;\<newline>'' @
     ''            border-collapse: collapse;\<newline>'' @
     ''            margin-top: 20px;\<newline>'' @
     ''        }\<newline>'' @
     ''        th, td {\<newline>'' @
     ''            padding: 12px 15px;\<newline>'' @
     ''            text-align: left;\<newline>'' @
     ''            border-bottom: 1px solid #dee2e6;\<newline>'' @
     ''        }\<newline>'' @
     ''        thead th {\<newline>'' @
     ''            background-color: #e9ecef;\<newline>'' @
     ''            font-weight: 600;\<newline>'' @
     ''            color: #495057;\<newline>'' @
     ''        }\<newline>'' @
     ''        tbody tr:nth-of-type(even) {\<newline>'' @
     ''            background-color: #f8f9fa;\<newline>'' @
     ''        }\<newline>'' @
     ''        tbody tr:hover {\<newline>'' @
     ''            background-color: #e9ecef;\<newline>'' @
     ''        }\<newline>'' @
     ''        a {\<newline>'' @
     ''            color: #007bff;\<newline>'' @
     ''            text-decoration: none;\<newline>'' @
     ''        }\<newline>'' @
     ''        a:hover {\<newline>'' @
     ''            text-decoration: underline;\<newline>'' @
     ''        }\<newline>'' @
     ''        .progress-bar-container {\<newline>'' @
     ''            width: 100%;\<newline>'' @
     ''            background-color: #e9ecef;\<newline>'' @
     ''            border-radius: 5px;\<newline>'' @
     ''            height: 20px;\<newline>'' @
     ''            overflow: hidden;\<newline>'' @
     ''        }\<newline>'' @
     ''        .progress-bar {\<newline>'' @
     ''            background: linear-gradient(90deg, #28a745, #218838);\<newline>'' @
     ''            height: 100%;\<newline>'' @
     ''            text-align: right;\<newline>'' @
     ''            color: white;\<newline>'' @
     ''            line-height: 20px;\<newline>'' @
     ''            border-radius: 5px;\<newline>'' @
     ''            transition: width 0.5s ease-in-out;\<newline>'' @
     ''        }\<newline>'' @
     ''        .percentage-label {\<newline>'' @
     ''            font-weight: bold;\<newline>'' @
     ''            min-width: 70px;\<newline>'' @
     ''            text-align: right;\<newline>'' @
     ''        }\<newline>'' @
     ''        .number {\<newline>'' @
     ''            text-align: right;\<newline>'' @
     ''            font-family: "Courier New", Courier, monospace;\<newline>'' @
     ''        }\<newline>'' @
     ''        .added { color: #28a745; }\<newline>'' @
     ''        .removed { color: #dc3545; }\<newline>'' @
     ''    </style>\<newline>'' @
     ''</head>\<newline>'' @
     ''<body>\<newline>'' @
     ''    <div class="container">\<newline>'' @
     ''        <h1>Contribution Report</h1>\<newline>'' @
     ''        <p class="summary">Analysis of user contributions for the Wikipedia article: <strong>''\<close>

definition template_text_3 :: string where
  \<open>template_text_3 =
     ''</strong></p>\<newline>'' @
     ''        \<newline>'' @
     ''        <table>\<newline>'' @
     ''            <thead>\<newline>'' @
     ''                <tr>\<newline>'' @
     ''                    <th>User</th>\<newline>'' @
     ''                    <th style="width: 30%;">Contribution (% of Text Added)</th>\<newline>'' @
     ''                    <th></th>\<newline>'' @
     ''                    <th>Edits</th>\<newline>'' @
     ''                    <th>Bytes Added</th>\<newline>'' @
     ''                    <th>Bytes Removed</th>\<newline>'' @
     ''                </tr>\<newline>'' @
     ''            </thead>\<newline>'' @
     ''            <tbody>\<newline>'' @
     ''                ''\<close>

definition template_text_4 :: string where
  \<open>template_text_4 =
     ''\<newline>'' @
     ''            </tbody>\<newline>'' @
     ''        </table>\<newline>'' @
     ''    </div>\<newline>'' @
     ''</body>\<newline>'' @
     ''</html>\<newline>'' @
     ''    ''\<close>

subsection \<open>Rows and page\<close>

text \<open>One pass of the loop \<^verbatim>\<open>for user_data in stats\<close>: the text added to \<^verbatim>\<open>table_rows\<close>.\<close>

definition table_row :: "user_data \<Rightarrow> string" where
  "table_row ud =
     (let user_name_safe = html_escape (stat_user ud);
          edits_text = format_comma (edits ud);
          text_added_text = ''+'' @ format_comma (text_added ud);
          text_removed_text = ''-'' @ format_comma (text_removed ud);
          pct = percentage ud
      in row_text_1 @ user_name_safe @ row_text_2 @ user_name_safe @ row_text_3 @
         format_2f pct @ row_text_4 @ format_2f pct @ row_text_5 @ edits_text @
         row_text_6 @ text_added_text @ row_text_7 @ text_removed_text @ row_text_8)"

definition table_rows :: "user_data list \<Rightarrow> string" where
  "table_rows stats = foldl (\<lambda>rows ud. rows @ table_row ud) [] stats"

text \<open>
  \<^verbatim>\<open>create_html_report\<close>: the value of \<^verbatim>\<open>html_template\<close>, which is the text the
  function writes to the report file.
\<close>

definition create_html_report :: "user_data list \<Rightarrow> string \<Rightarrow> string" where
  "create_html_report stats page_title =
     template_text_1 @ html_escape page_title @ template_text_2 @ html_escape page_title @
     template_text_3 @ table_rows stats @ template_text_4"

section \<open>Notions used to state the properties\<close>

text \<open>What \<^verbatim>\<open>user_stats[u]\<close> holds: the stored counters, or fresh ones for a new user.\<close>

definition stats_of :: "(string \<times> stats) list \<Rightarrow> string \<Rightarrow> stats" where
  "stats_of user_stats u = (case map_of user_stats u of None \<Rightarrow> new_stats | Some s \<Rightarrow> s)"

text \<open>The position of the first record of a user in the contribution data.\<close>

definition first_seen :: "contribution list \<Rightarrow> string \<Rightarrow> nat" where
  "first_seen contribution_data u = length (takeWhile (\<lambda>r. user r \<noteq> u) contribution_data)"

text \<open>The size of the page after the last revision, 0 when there is none.\<close>

definition final_size :: "revision list \<Rightarrow> int" where
  "final_size revisions = (if revisions = [] then 0 else get_size (last revisions))"

text \<open>The replacement \<^verbatim>\<open>html.escape\<close> makes for one character.\<close>

definition escape_char :: "char \<Rightarrow> string" where
  "escape_char c =
     (if c = CHR ''&'' then ''&amp;''
      else if c = CHR ''<'' then ''&lt;''
      else if c = CHR ''>'' then ''&gt;''
      else if c = CHR 0x22 then ''&quot;''
      else if c = CHR 0x27 then ''&#x27;''
      else [c])"

text \<open>The characters that open or close a tag or an attribute value.\<close>

definition markup_char :: "char \<Rightarrow> bool" where
  "markup_char c = (c = CHR ''<'' \<or> c = CHR ''>'' \<or> c = CHR 0x22 \<or> c = CHR 0x27)"

text \<open>
  The number a decimal numeral such as \<^verbatim>\<open>66.67\<close> denotes: the digits before the point,
  plus the digits behind it scaled by their count.
\<close>

definition digits_value :: "string \<Rightarrow> nat" where
  "digits_value s = foldl (\<lambda>a c. 10 * a + (of_char c - 48)) 0 s"

definition decimal_value :: "string \<Rightarrow> rat" where
  "decimal_value s =
     (let whole = takeWhile (\<lambda>c. c \<noteq> CHR ''.'') s;
          frac = drop 1 (dropWhile (\<lambda>c. c \<noteq> CHR ''.'') s)
      in of_nat (digits_value whole) + of_nat (digits_value frac) / 10 ^ length frac)"

section \<open>The worked example\<close>

text \<open>
  C1. The revisions A:100, B:150, A:120 give the deltas (A, +100), (B, +50), (A, -30),
  and the aggregation returns A with 2 edits, 100 added, 30 removed and the share
  100/150*100, then B with 1 edit, 50 added, 0 removed and the share 50/150*100, in
  this order.
\<close>

theorem scenario_A_B_A:
  "get_revision_data
     [\<lparr>rev_user = Some ''A'', rev_size = Some 100\<rparr>,
      \<lparr>rev_user = Some ''B'', rev_size = Some 150\<rparr>,
      \<lparr>rev_user = Some ''A'', rev_size = Some 120\<rparr>]
   = [\<lparr>user = ''A'', change = 100\<rparr>, \<lparr>user = ''B'', change = 50\<rparr>,
      \<lparr>user = ''A'', change = - 30\<rparr>]
   \<and> aggregate_user_stats
       [\<lparr>user = ''A'', change = 100\<rparr>, \<lparr>user = ''B'', change = 50\<rparr>,
        \<lparr>user = ''A'', change = - 30\<rparr>]
     = Inr [\<lparr>edits = 2, text_added = 100, text_removed = 30,
              stat_user = ''A'', percentage = 100 / 150 * 100\<rparr>,
            \<lparr>edits = 1, text_added = 50, text_removed = 0,
              stat_user = ''B'', percentage = 50 / 150 * 100\<rparr>]"
  by (simp add: get_revision_data_def revision_step_def get_size_def get_user_def aggregate_user_stats_def
      collect_user_stats_def count_change_def new_stats_def total_text_added_def
      percentage_of_def true_div_def sort_reverse_def)

section \<open>The size deltas\<close>

lemma revision_step_pair:
  "revision_step (cd, p) r = (cd @ [\<lparr>user = get_user r, change = get_size r - p\<rparr>], get_size r)"
  by (simp add: revision_step_def Let_def)

lemma snd_revision_step: "snd (revision_step st r) = get_size r"
  by (simp add: revision_step_def Let_def)

lemma fst_revision_step:
  "fst (revision_step st r) = fst st @ [\<lparr>user = get_user r, change = get_size r - snd st\<rparr>]"
  by (simp add: revision_step_def Let_def)

lemma previous_size_foldl:
  "snd (foldl revision_step (acc, p) rs) = (if rs = [] then p else get_size (last rs))"
  by (induction rs rule: rev_induct) (simp_all add: snd_revision_step)

lemma contribution_data_snoc:
  "fst (foldl revision_step st (rs @ [r])) =
     fst (foldl revision_step st rs) @
       [\<lparr>user = get_user r, change = get_size r - snd (foldl revision_step st rs)\<rparr>]"
  by (simp add: fst_revision_step)

lemma get_revision_data_snoc:
  "get_revision_data (rs @ [r]) =
     get_revision_data rs @
       [\<lparr>user = get_user r, change = get_size r - (if rs = [] then 0 else get_size (last rs))\<rparr>]"
  unfolding get_revision_data_def contribution_data_snoc previous_size_foldl ..

lemma length_get_revision_data: "length (get_revision_data rs) = length rs"
  by (induction rs rule: rev_induct) (simp_all add: get_revision_data_snoc, simp add: get_revision_data_def)

lemma get_revision_data_nth:
  "i < length rs \<Longrightarrow>
     get_revision_data rs ! i =
       \<lparr>user = get_user (rs ! i),
         change = get_size (rs ! i) - (if i = 0 then 0 else get_size (rs ! (i - 1)))\<rparr>"
proof (induction rs arbitrary: i rule: rev_induct)
  case Nil
  then show ?case by simp
next
  case (snoc r rs)
  show ?case
  proof (cases "i < length rs")
    case True
    then show ?thesis
      using snoc.IH[OF True]
      by (auto simp add: get_revision_data_snoc nth_append length_get_revision_data)
  next
    case False
    with snoc.prems have i: "i = length rs" by simp
    show ?thesis
      by (simp add: i get_revision_data_snoc nth_append length_get_revision_data last_conv_nth)
  qed
qed

text \<open>
  C2. The deltas are as many as the revisions and in their order: the record at
  position \<open>i\<close> carries the user of revision \<open>i\<close> and the size of revision \<open>i\<close>
  minus the size of the revision before it, where 0 stands before the first one. A
  missing user reads as \<^verbatim>\<open>Unknown\<close>, a missing size as 0, and no revisions give no
  deltas.
\<close>

theorem get_revision_data_deltas:
  "length (get_revision_data revisions) = length revisions
   \<and> (\<forall>i < length revisions.
        change (get_revision_data revisions ! i) =
          get_size (revisions ! i) - (if i = 0 then 0 else get_size (revisions ! (i - 1)))
        \<and> user (get_revision_data revisions ! i) = get_user (revisions ! i))
   \<and> (\<forall>r. rev_user r = None \<longrightarrow> get_user r = ''Unknown'')
   \<and> (\<forall>r u. rev_user r = Some u \<longrightarrow> get_user r = u)
   \<and> (\<forall>r. rev_size r = None \<longrightarrow> get_size r = 0)
   \<and> (\<forall>r n. rev_size r = Some n \<longrightarrow> get_size r = n)
   \<and> get_revision_data [] = []"
  by (simp add: length_get_revision_data get_revision_data_nth get_user_def get_size_def)
     (simp add: get_revision_data_def)

theorem get_revision_data_deltas_witness:
  "length (get_revision_data
      [\<lparr>rev_user = None, rev_size = Some 7\<rparr>, \<lparr>rev_user = Some ''A'', rev_size = None\<rparr>]) = 2
   \<and> change (get_revision_data
      [\<lparr>rev_user = None, rev_size = Some 7\<rparr>, \<lparr>rev_user = Some ''A'', rev_size = None\<rparr>] ! 1) = - 7
   \<and> user (get_revision_data
      [\<lparr>rev_user = None, rev_size = Some 7\<rparr>, \<lparr>rev_user = Some ''A'', rev_size = None\<rparr>] ! 0) = ''Unknown''"
  using get_revision_data_deltas
    [of "[\<lparr>rev_user = None, rev_size = Some 7\<rparr>, \<lparr>rev_user = Some ''A'', rev_size = None\<rparr>]"]
  by (simp add: get_user_def get_size_def)

section \<open>The table of counters\<close>

lemma collect_user_stats_snoc:
  "collect_user_stats (cd @ [d]) = update_user (user d) (change d) (collect_user_stats cd)"
  by (simp add: collect_user_stats_def)

lemma map_of_update_user:
  "map_of (update_user u c st) v =
     (if v = u then Some (count_change c (stats_of st u)) else map_of st v)"
  by (induction st) (auto simp add: stats_of_def)

lemma stats_of_update_user:
  "stats_of (update_user u c st) v =
     (if v = u then count_change c (stats_of st u) else stats_of st v)"
  by (simp add: stats_of_def map_of_update_user)

lemma count_change_fields:
  "edits (count_change c s) = edits s + 1"
  "text_added (count_change c s) = text_added s + (if 0 < c then c else 0)"
  "text_removed (count_change c s) = text_removed s + (if 0 < c then 0 else \<bar>c\<bar>)"
  by (simp_all add: count_change_def Let_def)

lemma stats_of_collect:
  "stats_of (collect_user_stats cd) u =
     \<lparr>edits = int (length (filter (\<lambda>d. user d = u) cd)),
      text_added = (\<Sum>d\<leftarrow>filter (\<lambda>d. user d = u) cd. if 0 < change d then change d else 0),
      text_removed = (\<Sum>d\<leftarrow>filter (\<lambda>d. user d = u) cd. if 0 < change d then 0 else \<bar>change d\<bar>)\<rparr>"
proof (induction cd rule: rev_induct)
  case Nil
  show ?case by (simp add: collect_user_stats_def stats_of_def new_stats_def)
next
  case (snoc d cd)
  show ?case
  proof (cases "user d = u")
    case True
    have "stats_of (collect_user_stats (cd @ [d])) u =
            count_change (change d) (stats_of (collect_user_stats cd) u)"
      by (simp add: collect_user_stats_snoc stats_of_update_user True)
    then show ?thesis
      by (simp add: snoc.IH True count_change_def Let_def)
  next
    case False
    then show ?thesis
      by (simp add: collect_user_stats_snoc stats_of_update_user snoc.IH)
  qed
qed

text \<open>
  C3. Processing one more record \<open>d\<close> after any records \<open>cd\<close> adds 1 to the edits of
  the record's user; a change above 0 is added to the user's \<open>text_added\<close>, and any
  other change, 0 included, adds its absolute value to the user's \<open>text_removed\<close>.
  The other counter of the user and the counters of all other users stay as they were.
  Over the whole input a user's edits are therefore the number of the user's records,
  \<open>text_added\<close> the sum of the user's changes above 0, and \<open>text_removed\<close> the sum
  of the absolute values of the user's other changes.
\<close>

theorem aggregation_step:
  "edits (stats_of (collect_user_stats (cd @ [d])) (user d)) =
     edits (stats_of (collect_user_stats cd) (user d)) + 1
   \<and> (0 < change d \<longrightarrow>
        text_added (stats_of (collect_user_stats (cd @ [d])) (user d)) =
          text_added (stats_of (collect_user_stats cd) (user d)) + change d
        \<and> text_removed (stats_of (collect_user_stats (cd @ [d])) (user d)) =
          text_removed (stats_of (collect_user_stats cd) (user d)))
   \<and> (\<not> 0 < change d \<longrightarrow>
        text_removed (stats_of (collect_user_stats (cd @ [d])) (user d)) =
          text_removed (stats_of (collect_user_stats cd) (user d)) + \<bar>change d\<bar>
        \<and> text_added (stats_of (collect_user_stats (cd @ [d])) (user d)) =
          text_added (stats_of (collect_user_stats cd) (user d)))
   \<and> (\<forall>v. v \<noteq> user d \<longrightarrow>
        stats_of (collect_user_stats (cd @ [d])) v = stats_of (collect_user_stats cd) v)
   \<and> stats_of (collect_user_stats cd) u =
       \<lparr>edits = int (length (filter (\<lambda>r. user r = u) cd)),
        text_added =
          (\<Sum>r\<leftarrow>filter (\<lambda>r. user r = u) cd. if 0 < change r then change r else 0),
        text_removed =
          (\<Sum>r\<leftarrow>filter (\<lambda>r. user r = u) cd. if 0 < change r then 0 else \<bar>change r\<bar>)\<rparr>"
  using stats_of_collect [of cd u]
  by (simp add: collect_user_stats_snoc stats_of_update_user count_change_fields)

theorem aggregation_step_witness:
  "edits (stats_of (collect_user_stats
      ([\<lparr>user = ''A'', change = 100\<rparr>] @ [\<lparr>user = ''A'', change = 0\<rparr>])) ''A'') = 2
   \<and> text_removed (stats_of (collect_user_stats
      ([\<lparr>user = ''A'', change = 100\<rparr>] @ [\<lparr>user = ''A'', change = 0\<rparr>])) ''A'') =
     text_removed (stats_of (collect_user_stats [\<lparr>user = ''A'', change = 100\<rparr>]) ''A'') + 0
   \<and> text_added (stats_of (collect_user_stats
      ([\<lparr>user = ''A'', change = 100\<rparr>] @ [\<lparr>user = ''B'', change = 50\<rparr>])) ''B'') = 50
   \<and> stats_of (collect_user_stats
      ([\<lparr>user = ''A'', change = 100\<rparr>] @ [\<lparr>user = ''B'', change = 50\<rparr>])) ''A'' =
     \<lparr>edits = 1, text_added = 100, text_removed = 0\<rparr>"
  using aggregation_step [of "[\<lparr>user = ''A'', change = 100\<rparr>]" "\<lparr>user = ''A'', change = 0\<rparr>"]
    aggregation_step [of "[\<lparr>user = ''A'', change = 100\<rparr>]" "\<lparr>user = ''B'', change = 50\<rparr>"]
  by (simp add: collect_user_stats_def stats_of_def count_change_def new_stats_def)

lemma sum_edits_update_user:
  "(\<Sum>kv\<leftarrow>update_user u c st. edits (snd kv)) = (\<Sum>kv\<leftarrow>st. edits (snd kv)) + 1"
  by (induction st) (auto simp add: count_change_fields new_stats_def)

lemma sum_added_update_user:
  "(\<Sum>kv\<leftarrow>update_user u c st. text_added (snd kv)) =
     (\<Sum>kv\<leftarrow>st. text_added (snd kv)) + (if 0 < c then c else 0)"
  by (induction st) (auto simp add: count_change_fields new_stats_def)

lemma sum_removed_update_user:
  "(\<Sum>kv\<leftarrow>update_user u c st. text_removed (snd kv)) =
     (\<Sum>kv\<leftarrow>st. text_removed (snd kv)) + (if 0 < c then 0 else \<bar>c\<bar>)"
  by (induction st) (auto simp add: count_change_fields new_stats_def)

lemma sum_edits_collect:
  "(\<Sum>kv\<leftarrow>collect_user_stats cd. edits (snd kv)) = int (length cd)"
  by (induction cd rule: rev_induct)
     (simp_all add: collect_user_stats_snoc sum_edits_update_user, simp add: collect_user_stats_def)

lemma sum_added_collect:
  "(\<Sum>kv\<leftarrow>collect_user_stats cd. text_added (snd kv)) =
     (\<Sum>d\<leftarrow>cd. if 0 < change d then change d else 0)"
  by (induction cd rule: rev_induct)
     (simp_all add: collect_user_stats_snoc sum_added_update_user, simp add: collect_user_stats_def)

lemma sum_removed_collect:
  "(\<Sum>kv\<leftarrow>collect_user_stats cd. text_removed (snd kv)) =
     (\<Sum>d\<leftarrow>cd. if 0 < change d then 0 else \<bar>change d\<bar>)"
  by (induction cd rule: rev_induct)
     (simp_all add: collect_user_stats_snoc sum_removed_update_user, simp add: collect_user_stats_def)

lemma total_text_added_nonneg: "0 \<le> total_text_added (collect_user_stats cd)"
  unfolding total_text_added_def sum_added_collect
  by (rule sum_list_nonneg) auto

lemma sum_removed_nonneg: "0 \<le> (\<Sum>kv\<leftarrow>collect_user_stats cd. text_removed (snd kv))"
  unfolding sum_removed_collect
  by (rule sum_list_nonneg) auto

lemma added_minus_removed:
  "(\<Sum>kv\<leftarrow>collect_user_stats cd. text_added (snd kv)) -
     (\<Sum>kv\<leftarrow>collect_user_stats cd. text_removed (snd kv)) = (\<Sum>d\<leftarrow>cd. change d)"
  unfolding sum_added_collect sum_removed_collect
  by (induction cd) auto

section \<open>Percentages and ranking\<close>

lemma process_stats_rows:
  "process_stats t st =
     Inr (map (\<lambda>kv. \<lparr>edits = edits (snd kv), text_added = text_added (snd kv),
                      text_removed = text_removed (snd kv), stat_user = fst kv,
                      percentage = (if 0 < t then of_int (text_added (snd kv)) / of_int t * 100
                                    else 0)\<rparr>) st)"
  by (induction st) (auto simp add: percentage_of_def true_div_def)

lemma sum_list_insort_key:
  fixes f :: "'a \<Rightarrow> 'b::comm_monoid_add"
  shows "sum_list (map f (insort_key k x xs)) = f x + sum_list (map f xs)"
  by (induction xs) (simp_all add: ac_simps)

lemma sum_list_sort_key:
  fixes f :: "'a \<Rightarrow> 'b::comm_monoid_add"
  shows "sum_list (map f (sort_key k xs)) = sum_list (map f xs)"
  by (induction xs) (simp_all add: sum_list_insort_key)

lemma sum_list_sort_reverse:
  fixes f :: "'a \<Rightarrow> 'b::comm_monoid_add"
  shows "sum_list (map f (sort_reverse k xs)) = sum_list (map f xs)"
  by (simp add: sort_reverse_def rev_map [symmetric] sum_list_sort_key)

lemma set_sort_reverse: "set (sort_reverse k xs) = set xs"
  by (simp add: sort_reverse_def)

lemma aggregate_user_stats_eq:
  "aggregate_user_stats cd =
     (if total_text_added (collect_user_stats cd) = 0 then Inr []
      else Inr (sort_reverse percentage
             (map (\<lambda>kv. \<lparr>edits = edits (snd kv), text_added = text_added (snd kv),
                      text_removed = text_removed (snd kv), stat_user = fst kv,
                      percentage = of_int (text_added (snd kv)) /
                                   of_int (total_text_added (collect_user_stats cd)) * 100\<rparr>)
                (collect_user_stats cd))))"
  using total_text_added_nonneg [of cd]
  by (simp add: aggregate_user_stats_def Let_def process_stats_rows)


lemma aggregate_user_stats_returns: "\<exists>rows. aggregate_user_stats cd = Inr rows"
  by (simp add: aggregate_user_stats_eq)

lemma sum_list_scaled:
  fixes t :: rat
  shows "(\<Sum>x\<leftarrow>xs. of_int (f x) / t * 100) = of_int (\<Sum>x\<leftarrow>xs. f x) / t * 100"
  by (induction xs) (simp_all add: add_divide_distrib distrib_right)

text \<open>
  C4. When the \<open>text_added\<close> counters of all users sum to 0 the aggregation returns
  the empty list; it returns normally, so no division by zero is raised.
\<close>

theorem no_text_added:
  "total_text_added (collect_user_stats cd) = 0 \<Longrightarrow>
     aggregate_user_stats cd = Inr [] \<and> aggregate_user_stats cd \<noteq> Inl ZeroDivisionError"
  by (simp add: aggregate_user_stats_eq)

theorem no_text_added_witness:
  "total_text_added (collect_user_stats
       [\<lparr>user = ''A'', change = 0\<rparr>, \<lparr>user = ''B'', change = - 5\<rparr>]) = 0
   \<and> aggregate_user_stats [\<lparr>user = ''A'', change = 0\<rparr>, \<lparr>user = ''B'', change = - 5\<rparr>] = Inr []"
proof -
  have h: "total_text_added (collect_user_stats
       [\<lparr>user = ''A'', change = 0\<rparr>, \<lparr>user = ''B'', change = - 5\<rparr>]) = 0"
    by (simp add: total_text_added_def collect_user_stats_def count_change_def new_stats_def)
  from no_text_added [OF h] h show ?thesis by simp
qed

text \<open>
  C5 does not hold for every revision sequence: one revision of size 0 adds no text, so
  the aggregation returns the empty list, whose edits sum to 0 and not to 1.
\<close>

theorem edits_sum_counterexample:
  "aggregate_user_stats (get_revision_data [\<lparr>rev_user = Some ''A'', rev_size = Some 0\<rparr>]) = Inr []
   \<and> sum_list (map edits ([] :: user_data list)) \<noteq>
       int (length [\<lparr>rev_user = Some ''A'', rev_size = Some 0\<rparr>])"
  by (simp add: get_revision_data_def revision_step_def get_size_def get_user_def
      aggregate_user_stats_def collect_user_stats_def count_change_def new_stats_def
      total_text_added_def)

text \<open>
  C5, amended. When the total text added is not 0, the edits of the returned rows sum
  to the number of revisions.
\<close>

theorem edits_sum_when_text_added:
  "total_text_added (collect_user_stats (get_revision_data revisions)) \<noteq> 0 \<Longrightarrow>
     \<exists>rows. aggregate_user_stats (get_revision_data revisions) = Inr rows
       \<and> (\<Sum>ud\<leftarrow>rows. edits ud) = int (length revisions)"
  by (simp add: aggregate_user_stats_eq sum_list_sort_reverse o_def sum_edits_collect
      length_get_revision_data)

theorem edits_sum_when_text_added_witness:
  "total_text_added (collect_user_stats (get_revision_data
      [\<lparr>rev_user = Some ''A'', rev_size = Some 100\<rparr>,
       \<lparr>rev_user = Some ''B'', rev_size = Some 150\<rparr>,
       \<lparr>rev_user = Some ''A'', rev_size = Some 120\<rparr>])) \<noteq> 0
   \<and> (\<exists>rows. aggregate_user_stats (get_revision_data
      [\<lparr>rev_user = Some ''A'', rev_size = Some 100\<rparr>,
       \<lparr>rev_user = Some ''B'', rev_size = Some 150\<rparr>,
       \<lparr>rev_user = Some ''A'', rev_size = Some 120\<rparr>]) = Inr rows
      \<and> (\<Sum>ud\<leftarrow>rows. edits ud) = 3)"
proof -
  have h: "total_text_added (collect_user_stats (get_revision_data
      [\<lparr>rev_user = Some ''A'', rev_size = Some 100\<rparr>,
       \<lparr>rev_user = Some ''B'', rev_size = Some 150\<rparr>,
       \<lparr>rev_user = Some ''A'', rev_size = Some 120\<rparr>])) \<noteq> 0"
    by (simp add: get_revision_data_def revision_step_def get_size_def get_user_def
        total_text_added_def collect_user_stats_def count_change_def new_stats_def)
  from edits_sum_when_text_added [OF h] h show ?thesis by simp
qed

text \<open>
  C6. When the total text added is above 0, the aggregation returns rows whose
  percentages sum to exactly 100 in rational arithmetic, each percentage being the
  row's \<open>text_added\<close> divided by the total and multiplied by 100.
\<close>

theorem percentages_sum_to_100:
  "0 < total_text_added (collect_user_stats cd) \<Longrightarrow>
     \<exists>rows. aggregate_user_stats cd = Inr rows
       \<and> (\<Sum>ud\<leftarrow>rows. percentage ud) = 100
       \<and> (\<forall>ud \<in> set rows. percentage ud =
             of_int (text_added ud) / of_int (total_text_added (collect_user_stats cd)) * 100)"
proof -
  assume pos: "0 < total_text_added (collect_user_stats cd)"
  let ?t = "total_text_added (collect_user_stats cd)"
  let ?row = "\<lambda>kv. \<lparr>edits = edits (snd kv), text_added = text_added (snd kv),
                      text_removed = text_removed (snd kv), stat_user = fst kv,
                      percentage = of_int (text_added (snd kv)) / of_int ?t * 100\<rparr>"
  let ?rows = "sort_reverse percentage (map ?row (collect_user_stats cd))"
  have res: "aggregate_user_stats cd = Inr ?rows"
    using pos by (simp add: aggregate_user_stats_eq)
  have "(\<Sum>ud\<leftarrow>?rows. percentage ud) =
          (\<Sum>kv\<leftarrow>collect_user_stats cd. of_int (text_added (snd kv)) / of_int ?t * 100)"
    by (simp add: sum_list_sort_reverse o_def)
  also have "\<dots> = of_int ?t / of_int ?t * 100"
    unfolding sum_list_scaled by (simp add: total_text_added_def)
  also have "\<dots> = 100"
    using pos by simp
  finally have total: "(\<Sum>ud\<leftarrow>?rows. percentage ud) = 100" .
  have each: "\<forall>ud \<in> set ?rows. percentage ud = of_int (text_added ud) / of_int ?t * 100"
    by (auto simp add: set_sort_reverse)
  from res total each show ?thesis by blast
qed

theorem percentages_sum_to_100_witness:
  "0 < total_text_added (collect_user_stats
      [\<lparr>user = ''A'', change = 100\<rparr>, \<lparr>user = ''B'', change = 50\<rparr>,
       \<lparr>user = ''A'', change = - 30\<rparr>])
   \<and> (\<exists>rows. aggregate_user_stats
      [\<lparr>user = ''A'', change = 100\<rparr>, \<lparr>user = ''B'', change = 50\<rparr>,
       \<lparr>user = ''A'', change = - 30\<rparr>] = Inr rows
      \<and> (\<Sum>ud\<leftarrow>rows. percentage ud) = 100)"
proof -
  have h: "0 < total_text_added (collect_user_stats
      [\<lparr>user = ''A'', change = 100\<rparr>, \<lparr>user = ''B'', change = 50\<rparr>,
       \<lparr>user = ''A'', change = - 30\<rparr>])"
    by (simp add: total_text_added_def collect_user_stats_def count_change_def new_stats_def)
  from percentages_sum_to_100 [OF h] h show ?thesis by blast
qed

lemma sum_changes_get_revision_data:
  "(\<Sum>d\<leftarrow>get_revision_data rs. change d) = final_size rs"
  by (induction rs rule: rev_induct)
     (simp_all add: get_revision_data_snoc final_size_def, simp add: get_revision_data_def)

lemma final_size_nonneg: "\<forall>r \<in> set rs. 0 \<le> get_size r \<Longrightarrow> 0 \<le> final_size rs"
  by (simp add: final_size_def)

text \<open>
  C10. The changes of all deltas sum to the size of the last revision, and to 0 when
  there is no revision. So the counters collected from them satisfy: total added minus
  total removed is the final size. The same holds for the rows the aggregation
  returns when no size is negative, as the data model requires of a revision.
\<close>

theorem net_change_is_final_size:
  "(\<Sum>d\<leftarrow>get_revision_data revisions. change d) = final_size revisions
   \<and> (\<Sum>d\<leftarrow>get_revision_data []. change d) = 0
   \<and> (\<Sum>kv\<leftarrow>collect_user_stats (get_revision_data revisions). text_added (snd kv)) -
       (\<Sum>kv\<leftarrow>collect_user_stats (get_revision_data revisions). text_removed (snd kv)) =
       final_size revisions
   \<and> ((\<forall>r \<in> set revisions. 0 \<le> get_size r) \<longrightarrow>
        (\<exists>rows. aggregate_user_stats (get_revision_data revisions) = Inr rows
           \<and> (\<Sum>ud\<leftarrow>rows. text_added ud) - (\<Sum>ud\<leftarrow>rows. text_removed ud) =
               final_size revisions))"
proof -
  let ?cd = "get_revision_data revisions"
  let ?st = "collect_user_stats ?cd"
  have a: "(\<Sum>d\<leftarrow>?cd. change d) = final_size revisions"
    by (rule sum_changes_get_revision_data)
  have b: "(\<Sum>d\<leftarrow>get_revision_data []. change d) = 0"
    by (simp add: get_revision_data_def)
  have c: "(\<Sum>kv\<leftarrow>?st. text_added (snd kv)) - (\<Sum>kv\<leftarrow>?st. text_removed (snd kv)) =
             final_size revisions"
    by (simp add: added_minus_removed a)
  have d: "\<exists>rows. aggregate_user_stats ?cd = Inr rows
             \<and> (\<Sum>ud\<leftarrow>rows. text_added ud) - (\<Sum>ud\<leftarrow>rows. text_removed ud) =
                 final_size revisions"
    if wf: "\<forall>r \<in> set revisions. 0 \<le> get_size r"
  proof (cases "total_text_added ?st = 0")
    case True
    have "0 \<le> final_size revisions" using wf by (rule final_size_nonneg)
    moreover have "final_size revisions = - (\<Sum>kv\<leftarrow>?st. text_removed (snd kv))"
      using c True by (simp add: total_text_added_def)
    moreover have "0 \<le> (\<Sum>kv\<leftarrow>?st. text_removed (snd kv))" by (rule sum_removed_nonneg)
    ultimately have "final_size revisions = 0" by linarith
    with True show ?thesis by (simp add: aggregate_user_stats_eq)
  next
    case False
    with c show ?thesis
      by (simp add: aggregate_user_stats_eq sum_list_sort_reverse o_def)
  qed
  from a b c d show ?thesis by blast
qed

theorem net_change_is_final_size_witness:
  "0 \<le> get_size \<lparr>rev_user = Some ''A'', rev_size = Some 100\<rparr>
   \<and> 0 \<le> get_size \<lparr>rev_user = Some ''B'', rev_size = Some 150\<rparr>
   \<and> 0 \<le> get_size \<lparr>rev_user = Some ''A'', rev_size = Some 120\<rparr>
   \<and> (\<exists>rows. aggregate_user_stats (get_revision_data
      [\<lparr>rev_user = Some ''A'', rev_size = Some 100\<rparr>,
       \<lparr>rev_user = Some ''B'', rev_size = Some 150\<rparr>,
       \<lparr>rev_user = Some ''A'', rev_size = Some 120\<rparr>]) = Inr rows
      \<and> (\<Sum>ud\<leftarrow>rows. text_added ud) - (\<Sum>ud\<leftarrow>rows. text_removed ud) = 120)"
  using net_change_is_final_size
    [of "[\<lparr>rev_user = Some ''A'', rev_size = Some 100\<rparr>,
       \<lparr>rev_user = Some ''B'', rev_size = Some 150\<rparr>,
       \<lparr>rev_user = Some ''A'', rev_size = Some 120\<rparr>]"]
  by (simp add: get_size_def final_size_def)

section \<open>The order of the ranking\<close>

lemma sorted_wrt_insort_key_stable:
  fixes f :: "'a \<Rightarrow> 'k::linorder"
  assumes "sorted_wrt (\<lambda>a b. f a < f b \<or> f a = f b \<and> Q a b) zs"
    and "\<forall>z \<in> set zs. Q y z"
  shows "sorted_wrt (\<lambda>a b. f a < f b \<or> f a = f b \<and> Q a b) (insort_key f y zs)"
  using assms
proof (induction zs)
  case Nil
  then show ?case by simp
next
  case (Cons z zs)
  show ?case
  proof (cases "f y \<le> f z")
    case True
    have "f y < f w \<or> f y = f w \<and> Q y w" if "w \<in> set (z # zs)" for w
    proof -
      have "f z \<le> f w" using Cons.prems(1) that by auto
      with True have "f y \<le> f w" by simp
      moreover have "Q y w" using Cons.prems(2) that by blast
      ultimately show ?thesis by (auto simp add: le_less)
    qed
    with True Cons.prems(1) show ?thesis by simp
  next
    case False
    then have "f z < f y" by simp
    moreover have "sorted_wrt (\<lambda>a b. f a < f b \<or> f a = f b \<and> Q a b) (insort_key f y zs)"
      using Cons.IH Cons.prems by simp
    ultimately show ?thesis
      using False Cons.prems(1) by (auto simp add: set_insort_key)
  qed
qed

lemma sorted_wrt_sort_key_stable:
  fixes f :: "'a \<Rightarrow> 'k::linorder"
  shows "sorted_wrt Q ys \<Longrightarrow>
    sorted_wrt (\<lambda>a b. f a < f b \<or> f a = f b \<and> Q a b) (sort_key f ys)"
  by (induction ys) (simp_all add: sorted_wrt_insort_key_stable)

lemma sorted_wrt_sort_reverse:
  fixes f :: "'a \<Rightarrow> 'k::linorder"
  assumes "sorted_wrt Q xs"
  shows "sorted_wrt (\<lambda>a b. f b < f a \<or> f a = f b \<and> Q a b) (sort_reverse f xs)"
proof -
  have "sorted_wrt (\<lambda>a b. Q b a) (rev xs)"
    using assms by (simp add: sorted_wrt_rev)
  then have "sorted_wrt (\<lambda>a b. f a < f b \<or> f a = f b \<and> Q b a) (sort_key f (rev xs))"
    by (rule sorted_wrt_sort_key_stable)
  then have "sorted_wrt (\<lambda>a b. f b < f a \<or> f b = f a \<and> Q a b) (sort_reverse f xs)"
    by (simp add: sort_reverse_def sorted_wrt_rev)
  then show ?thesis
    by (rule sorted_wrt_mono_rel [rotated]) auto
qed

lemma keys_update_user:
  "map fst (update_user u c st) =
     (if u \<in> fst ` set st then map fst st else map fst st @ [u])"
  by (induction st) force+

lemma set_keys_collect: "fst ` set (collect_user_stats cd) = user ` set cd"
proof (induction cd rule: rev_induct)
  case Nil
  show ?case by (simp add: collect_user_stats_def)
next
  case (snoc d cd)
  have "fst ` set (collect_user_stats (cd @ [d])) =
          set (map fst (update_user (user d) (change d) (collect_user_stats cd)))"
    by (simp add: collect_user_stats_snoc)
  also have "\<dots> = insert (user d) (fst ` set (collect_user_stats cd))"
    unfolding keys_update_user by auto
  finally show ?case using snoc.IH by simp
qed

lemma first_seen_less: "u \<in> user ` set cd \<Longrightarrow> first_seen cd u < length cd"
  by (induction cd) (auto simp add: first_seen_def)

lemma first_seen_snoc_known:
  "u \<in> user ` set cd \<Longrightarrow> first_seen (cd @ [d]) u = first_seen cd u"
  by (auto simp add: first_seen_def)

lemma first_seen_snoc_new:
  "user d \<notin> user ` set cd \<Longrightarrow> first_seen (cd @ [d]) (user d) = length cd"
proof -
  assume a: "user d \<notin> user ` set cd"
  have "user r \<noteq> user d" if "r \<in> set cd" for r
    using a that by (metis imageI)
  then show ?thesis by (simp add: first_seen_def)
qed

lemma keys_in_first_seen_order:
  "sorted_wrt (\<lambda>k l. first_seen cd k < first_seen cd l) (map fst (collect_user_stats cd))"
proof (induction cd rule: rev_induct)
  case Nil
  show ?case by (simp add: collect_user_stats_def)
next
  case (snoc d cd)
  let ?keys = "map fst (collect_user_stats cd)"
  have keys: "set ?keys = user ` set cd"
    by (simp add: set_keys_collect)
  have old: "sorted_wrt (\<lambda>k l. first_seen (cd @ [d]) k < first_seen (cd @ [d]) l) ?keys"
    using snoc.IH
  proof (rule sorted_wrt_mono_rel [rotated])
    fix k l
    assume "k \<in> set ?keys" "l \<in> set ?keys" "first_seen cd k < first_seen cd l"
    then show "first_seen (cd @ [d]) k < first_seen (cd @ [d]) l"
      unfolding keys by (simp add: first_seen_snoc_known)
  qed
  show ?case
  proof (cases "user d \<in> user ` set cd")
    case True
    with old show ?thesis
      by (simp add: collect_user_stats_snoc keys_update_user set_keys_collect)
  next
    case False
    have "first_seen (cd @ [d]) k < first_seen (cd @ [d]) (user d)" if "k \<in> set ?keys" for k
    proof -
      from that have "k \<in> user ` set cd" unfolding keys .
      then show ?thesis
        by (simp add: first_seen_snoc_known first_seen_snoc_new [OF False] first_seen_less)
    qed
    then have "\<forall>k \<in> set ?keys. first_seen (cd @ [d]) k < first_seen (cd @ [d]) (user d)"
      by blast
    with old False show ?thesis
      unfolding collect_user_stats_snoc keys_update_user set_keys_collect
      by (simp add: sorted_wrt_append)
  qed
qed

text \<open>
  C7. The returned rows are in non-increasing order of percentage, and of two rows
  with the same percentage the one whose user appears first in the contribution data
  comes first: every row stands before every later row in the order given by the higher
  percentage and, for equal percentages, the earlier first record.
\<close>

theorem ranking_order:
  "\<exists>rows. aggregate_user_stats cd = Inr rows
     \<and> sorted_wrt (\<lambda>a b. percentage b \<le> percentage a) rows
     \<and> sorted_wrt (\<lambda>a b. percentage b < percentage a
          \<or> percentage a = percentage b
            \<and> first_seen cd (stat_user a) < first_seen cd (stat_user b)) rows"
proof (cases "total_text_added (collect_user_stats cd) = 0")
  case True
  then show ?thesis by (simp add: aggregate_user_stats_eq)
next
  case False
  let ?t = "total_text_added (collect_user_stats cd)"
  let ?row = "\<lambda>kv. \<lparr>edits = edits (snd kv), text_added = text_added (snd kv),
                      text_removed = text_removed (snd kv), stat_user = fst kv,
                      percentage = of_int (text_added (snd kv)) / of_int ?t * 100\<rparr>"
  let ?rows = "sort_reverse percentage (map ?row (collect_user_stats cd))"
  have res: "aggregate_user_stats cd = Inr ?rows"
    using False by (simp add: aggregate_user_stats_eq)
  have "sorted_wrt (\<lambda>a b. first_seen cd (stat_user a) < first_seen cd (stat_user b))
          (map ?row (collect_user_stats cd))"
    using keys_in_first_seen_order [of cd] by (simp add: sorted_wrt_map)
  then have ties: "sorted_wrt (\<lambda>a b. percentage b < percentage a
          \<or> percentage a = percentage b
            \<and> first_seen cd (stat_user a) < first_seen cd (stat_user b)) ?rows"
    by (rule sorted_wrt_sort_reverse)
  then have "sorted_wrt (\<lambda>a b. percentage b \<le> percentage a) ?rows"
    by (rule sorted_wrt_mono_rel [rotated]) auto
  with res ties show ?thesis by blast
qed

theorem ranking_order_witness:
  "aggregate_user_stats
     [\<lparr>user = ''B'', change = 50\<rparr>, \<lparr>user = ''C'', change = 100\<rparr>, \<lparr>user = ''A'', change = 50\<rparr>]
   = Inr [\<lparr>edits = 1, text_added = 100, text_removed = 0, stat_user = ''C'', percentage = 50\<rparr>,
          \<lparr>edits = 1, text_added = 50, text_removed = 0, stat_user = ''B'', percentage = 25\<rparr>,
          \<lparr>edits = 1, text_added = 50, text_removed = 0, stat_user = ''A'', percentage = 25\<rparr>]
   \<and> first_seen
        [\<lparr>user = ''B'', change = 50\<rparr>, \<lparr>user = ''C'', change = 100\<rparr>, \<lparr>user = ''A'', change = 50\<rparr>]
        ''B'' = 0
   \<and> first_seen
        [\<lparr>user = ''B'', change = 50\<rparr>, \<lparr>user = ''C'', change = 100\<rparr>, \<lparr>user = ''A'', change = 50\<rparr>]
        ''A'' = 2"
  using ranking_order
    [of "[\<lparr>user = ''B'', change = 50\<rparr>, \<lparr>user = ''C'', change = 100\<rparr>, \<lparr>user = ''A'', change = 50\<rparr>]"]
  by (simp add: aggregate_user_stats_def collect_user_stats_def count_change_def new_stats_def
      total_text_added_def percentage_of_def true_div_def sort_reverse_def first_seen_def)

section \<open>Escaping\<close>

lemma replace_char_Nil: "replace_char c new [] = []"
  by (simp add: replace_char_def)

lemma replace_char_Cons:
  "replace_char c new (x # s) = (if x = c then new else [x]) @ replace_char c new s"
  by (simp add: replace_char_def)

lemma replace_char_append:
  "replace_char c new (s @ t) = replace_char c new s @ replace_char c new t"
  by (simp add: replace_char_def)

lemma html_escape_Nil: "html_escape [] = []"
  by (simp add: html_escape_def replace_char_Nil)

lemma html_escape_Cons: "html_escape (x # s) = escape_char x @ html_escape s"
  by (simp add: html_escape_def escape_char_def replace_char_Cons replace_char_append
      replace_char_Nil)

lemma html_escape_chars: "html_escape s = concat (map escape_char s)"
  by (induction s) (simp_all add: html_escape_Nil html_escape_Cons)

lemma escape_char_no_markup: "filter markup_char (escape_char c) = []"
  by (simp add: escape_char_def markup_char_def)

lemma html_escape_no_markup: "filter markup_char (html_escape s) = []"
  by (induction s) (simp_all add: html_escape_Nil html_escape_Cons escape_char_no_markup)

lemma foldl_append_concat:
  "foldl (\<lambda>rows x. rows @ f x) acc xs = acc @ concat (map f xs)"
  by (induction xs arbitrary: acc) simp_all

lemma table_rows_concat: "table_rows stats = concat (map table_row stats)"
  by (simp add: table_rows_def foldl_append_concat)

lemma table_row_text:
  "table_row ud =
     row_text_1 @ html_escape (stat_user ud) @ row_text_2 @ html_escape (stat_user ud) @
     row_text_3 @ format_2f (percentage ud) @ row_text_4 @ format_2f (percentage ud) @
     row_text_5 @ format_comma (edits ud) @ row_text_6 @ ''+'' @ format_comma (text_added ud) @
     row_text_7 @ ''-'' @ format_comma (text_removed ud) @ row_text_8"
  by (simp add: table_row_def Let_def)

lemma table_row_markup:
  "filter markup_char (table_row ud) =
     filter markup_char
       (row_text_1 @ row_text_2 @ row_text_3 @ format_2f (percentage ud) @ row_text_4 @
        format_2f (percentage ud) @ row_text_5 @ format_comma (edits ud) @ row_text_6 @
        ''+'' @ format_comma (text_added ud) @ row_text_7 @
        ''-'' @ format_comma (text_removed ud) @ row_text_8)"
  unfolding table_row_text
  by (simp add: html_escape_no_markup)

lemma table_rows_markup:
  "filter markup_char (table_rows stats) =
     filter markup_char (table_rows (map (\<lambda>ud. ud\<lparr>stat_user := []\<rparr>) stats))"
  unfolding table_rows_concat
  by (induction stats) (simp_all add: table_row_markup)

text \<open>
  C8. The page title and every user name reach the document only through
  \<^verbatim>\<open>html.escape\<close>, which replaces each of the five characters \<^verbatim>\<open>& < > " '\<close> by its
  entity and keeps every other character. An escaped string contains none of
  \<^verbatim>\<open>< > " '\<close>, so the markup characters of the document are those of the template
  alone: they are the same as for empty names and an empty title.
\<close>

theorem report_escapes_strings:
  "create_html_report stats page_title =
     template_text_1 @ html_escape page_title @ template_text_2 @ html_escape page_title @
     template_text_3 @ concat (map table_row stats) @ template_text_4
   \<and> (\<forall>ud \<in> set stats. table_row ud =
         row_text_1 @ html_escape (stat_user ud) @ row_text_2 @ html_escape (stat_user ud) @
         row_text_3 @ format_2f (percentage ud) @ row_text_4 @ format_2f (percentage ud) @
         row_text_5 @ format_comma (edits ud) @ row_text_6 @
         ''+'' @ format_comma (text_added ud) @ row_text_7 @
         ''-'' @ format_comma (text_removed ud) @ row_text_8)
   \<and> html_escape s = concat (map escape_char s)
   \<and> (\<forall>c \<in> set (html_escape s). \<not> markup_char c)
   \<and> filter markup_char (create_html_report stats page_title) =
       filter markup_char (create_html_report (map (\<lambda>ud. ud\<lparr>stat_user := []\<rparr>) stats) [])"
proof -
  have a: "create_html_report stats page_title =
     template_text_1 @ html_escape page_title @ template_text_2 @ html_escape page_title @
     template_text_3 @ concat (map table_row stats) @ template_text_4"
    by (simp add: create_html_report_def table_rows_concat)
  have b: "\<forall>c \<in> set (html_escape s). \<not> markup_char c"
    using html_escape_no_markup [of s] by (simp add: filter_empty_conv)
  have c: "filter markup_char (create_html_report stats page_title) =
       filter markup_char (create_html_report (map (\<lambda>ud. ud\<lparr>stat_user := []\<rparr>) stats) [])"
    using table_rows_markup [of stats]
    by (simp add: create_html_report_def html_escape_no_markup html_escape_Nil)
  from a b c show ?thesis
    by (simp add: table_row_text html_escape_chars)
qed

theorem report_escapes_strings_witness:
  "html_escape ''<b>T&J</b>'' = ''&lt;b&gt;T&amp;J&lt;/b&gt;''
   \<and> table_row \<lparr>edits = 1, text_added = 5, text_removed = 0,
                 stat_user = ''<i>'', percentage = 100\<rparr> =
       row_text_1 @ ''&lt;i&gt;'' @ row_text_2 @ ''&lt;i&gt;'' @ row_text_3 @ format_2f 100 @
       row_text_4 @ format_2f 100 @ row_text_5 @ format_comma 1 @ row_text_6 @
       ''+'' @ format_comma 5 @ row_text_7 @ ''-'' @ format_comma 0 @ row_text_8
   \<and> \<not> markup_char (CHR ''&'')"
  using report_escapes_strings
    [of "[\<lparr>edits = 1, text_added = 5, text_removed = 0, stat_user = ''<i>'', percentage = 100\<rparr>]"
        "''T''" "''<b>T&J</b>''"]
  by (simp add: escape_char_def markup_char_def html_escape_def replace_char_def)

section \<open>The two-decimal format\<close>

lemma below_ten: "d < 10 \<Longrightarrow> d \<in> {0, 1, 2, 3, 4, 5, 6, 7, 8, 9::nat}"
  by auto

lemma digit_char_value: "d < 10 \<Longrightarrow> of_char (digit_char d) = 48 + d"
  by (drule below_ten) (auto simp add: digit_char_def)

lemma digit_char_not_point: "d < 10 \<Longrightarrow> digit_char d \<noteq> CHR ''.''"
  by (drule below_ten) (auto simp add: digit_char_def)

lemma point_not_in_decimal: "CHR ''.'' \<notin> set (decimal n)"
proof (induction n rule: decimal.induct)
  case (1 n)
  show ?case
  proof (cases "n < 10")
    case True
    then show ?thesis
      using digit_char_not_point [of n] by (subst decimal.simps) auto
  next
    case False
    have "n mod 10 < 10" by simp
    then have "digit_char (n mod 10) \<noteq> CHR ''.''" by (rule digit_char_not_point)
    with False "1.IH" show ?thesis
      by (subst decimal.simps) auto
  qed
qed

lemma digits_value_snoc: "digits_value (s @ [c]) = 10 * digits_value s + (of_char c - 48)"
  by (simp add: digits_value_def)

lemma digits_value_decimal: "digits_value (decimal n) = n"
proof (induction n rule: decimal.induct)
  case (1 n)
  show ?case
  proof (cases "n < 10")
    case True
    then show ?thesis
      by (subst decimal.simps) (simp add: digits_value_def digit_char_value)
  next
    case False
    have "n mod 10 < 10" by simp
    then have "of_char (digit_char (n mod 10)) = 48 + n mod 10" by (rule digit_char_value)
    with False "1.IH" show ?thesis
      by (subst decimal.simps) (simp add: digits_value_snoc)
  qed
qed

lemma round_half_even_near: "\<bar>of_int (round_half_even y) - y\<bar> \<le> 1 / 2"
proof -
  have "of_int \<lfloor>y\<rfloor> \<le> y" "y < of_int \<lfloor>y\<rfloor> + 1" by linarith+
  then show ?thesis
    by (auto simp add: round_half_even_def Let_def) 
qed

lemma round_half_even_nonneg: "0 \<le> y \<Longrightarrow> 0 \<le> round_half_even y"
  by (auto simp add: round_half_even_def Let_def)


lemma takeWhile_point:
  "CHR ''.'' \<notin> set w \<Longrightarrow> takeWhile (\<lambda>c. c \<noteq> CHR ''.'') (w @ CHR ''.'' # r) = w"
  by (induction w) auto

lemma dropWhile_point:
  "CHR ''.'' \<notin> set w \<Longrightarrow>
     dropWhile (\<lambda>c. c \<noteq> CHR ''.'') (w @ CHR ''.'' # r) = CHR ''.'' # r"
  by (induction w) auto

lemma format_2f_nonneg:
  "0 \<le> x \<Longrightarrow>
     format_2f x =
       decimal (nat (round_half_even (x * 100)) div 100) @
       CHR ''.'' # [digit_char (nat (round_half_even (x * 100)) mod 100 div 10),
                   digit_char (nat (round_half_even (x * 100)) mod 10)]"
  by (simp add: format_2f_def Let_def)

lemma two_digits_value:
  "digits_value [digit_char (n mod 100 div 10), digit_char (n mod 10)] = n mod 100"
proof -
  have "n mod 100 div 10 < 10" "n mod 10 < 10" by auto
  then have "of_char (digit_char (n mod 100 div 10)) = 48 + n mod 100 div 10"
    "of_char (digit_char (n mod 10)) = 48 + n mod 10"
    by (auto intro: digit_char_value)
  then have "digits_value [digit_char (n mod 100 div 10), digit_char (n mod 10)] =
      10 * (n mod 100 div 10) + n mod 10"
    by (simp add: digits_value_def)
  moreover have "n mod 100 mod 10 = n mod 10"
    by (simp add: mod_mod_cancel)
  moreover have "n mod 100 div 10 * 10 + n mod 100 mod 10 = n mod 100"
    by (rule div_mult_mod_eq)
  ultimately show ?thesis by linarith
qed

lemma two_places_format_2f:
  "0 \<le> x \<Longrightarrow> length (dropWhile (\<lambda>c. c \<noteq> CHR ''.'') (format_2f x)) = 3"
  by (simp add: format_2f_nonneg dropWhile_point point_not_in_decimal)

lemma decimal_value_format_2f:
  assumes "0 \<le> x"
  shows "decimal_value (format_2f x) = of_int (round_half_even (x * 100)) / 100"
proof -
  let ?n = "nat (round_half_even (x * 100))"
  have "0 \<le> round_half_even (x * 100)"
    using assms by (intro round_half_even_nonneg) simp
  then have n: "of_nat ?n = (of_int (round_half_even (x * 100)) :: rat)"
    by simp
  have "?n div 100 * 100 + ?n mod 100 = ?n"
    by (rule div_mult_mod_eq)
  then have split: "(of_nat ?n :: rat) = of_nat (?n div 100) * 100 + of_nat (?n mod 100)"
    by (metis of_nat_add of_nat_mult of_nat_numeral)
  have "decimal_value (format_2f x) = of_nat (?n div 100) + of_nat (?n mod 100) / 100"
    using assms
    by (simp add: format_2f_nonneg decimal_value_def Let_def takeWhile_point dropWhile_point
        point_not_in_decimal digits_value_decimal two_digits_value)
  also have "\<dots> = of_nat ?n / 100"
    unfolding split by (simp add: add_divide_distrib)
  finally show ?thesis by (simp only: n)
qed

lemma decimal_value_format_2f_near:
  assumes "0 \<le> x"
  shows "\<bar>decimal_value (format_2f x) - x\<bar> \<le> 1 / 200"
proof -
  have "\<bar>of_int (round_half_even (x * 100)) - x * 100\<bar> \<le> 1 / 2"
    by (rule round_half_even_near)
  then show ?thesis
    unfolding decimal_value_format_2f [OF assms] by (simp add: abs_le_iff field_simps)
qed

lemma floor_20000_3: "\<lfloor>20000 / 3 :: rat\<rfloor> = 6666"
  by (simp add: floor_eq_iff)

lemma round_20000_3: "round_half_even (20000 / 3) = 6667"
  unfolding round_half_even_def Let_def floor_20000_3 by simp

lemma format_2f_200_3: "format_2f (200 / 3) = ''66.67''"
  by (simp add: format_2f_def Let_def round_20000_3 decimal.simps digit_char_def)

lemma text_added_update_user_nonneg:
  "\<forall>kv \<in> set st. 0 \<le> text_added (snd kv) \<Longrightarrow>
     \<forall>kv \<in> set (update_user u c st). 0 \<le> text_added (snd kv)"
  by (induction st) (fastforce simp add: count_change_fields new_stats_def split: if_splits)+

lemma text_added_collect_nonneg:
  "\<forall>kv \<in> set (collect_user_stats cd). 0 \<le> text_added (snd kv)"
  by (induction cd rule: rev_induct)
     (simp_all add: collect_user_stats_snoc text_added_update_user_nonneg, simp add: collect_user_stats_def)

lemma aggregated_percentage_nonneg:
  assumes "aggregate_user_stats cd = Inr rows" and "ud \<in> set rows"
  shows "0 \<le> percentage ud"
proof (cases "total_text_added (collect_user_stats cd) = 0")
  case True
  with assms show ?thesis by (simp add: aggregate_user_stats_eq)
next
  case False
  with total_text_added_nonneg [of cd] have pos: "0 < total_text_added (collect_user_stats cd)"
    by simp
  from assms False obtain kv where kv: "kv \<in> set (collect_user_stats cd)"
    and p: "percentage ud =
      of_int (text_added (snd kv)) / of_int (total_text_added (collect_user_stats cd)) * 100"
    by (auto simp add: aggregate_user_stats_eq set_sort_reverse)
  from kv have "0 \<le> text_added (snd kv)"
    using text_added_collect_nonneg by blast
  with pos show ?thesis by (simp add: p)
qed

text \<open>
  C9 does not hold as stated. In the worked example user A has the percentage
  200/3. The row writes \<^verbatim>\<open>66.67\<close> as the width of the bar and as the label, and the
  number 66.67 is not 200/3: the bar is sized to the rounded percentage.
\<close>

theorem bar_width_counterexample:
  "aggregate_user_stats
       [\<lparr>user = ''A'', change = 100\<rparr>, \<lparr>user = ''B'', change = 50\<rparr>,
        \<lparr>user = ''A'', change = - 30\<rparr>]
     = Inr [\<lparr>edits = 2, text_added = 100, text_removed = 30,
              stat_user = ''A'', percentage = 200 / 3\<rparr>,
            \<lparr>edits = 1, text_added = 50, text_removed = 0,
              stat_user = ''B'', percentage = 100 / 3\<rparr>]
   \<and> table_row \<lparr>edits = 2, text_added = 100, text_removed = 30,
                 stat_user = ''A'', percentage = 200 / 3\<rparr> =
       row_text_1 @ ''A'' @ row_text_2 @ ''A'' @ row_text_3 @ ''66.67'' @ row_text_4 @
       ''66.67'' @ row_text_5 @ ''2'' @ row_text_6 @ ''+100'' @ row_text_7 @ ''-30'' @ row_text_8
   \<and> decimal_value ''66.67'' \<noteq>
       percentage \<lparr>edits = 2, text_added = 100, text_removed = 30,
                    stat_user = ''A'', percentage = 200 / 3\<rparr>"
proof -
  have a: "aggregate_user_stats
       [\<lparr>user = ''A'', change = 100\<rparr>, \<lparr>user = ''B'', change = 50\<rparr>,
        \<lparr>user = ''A'', change = - 30\<rparr>]
     = Inr [\<lparr>edits = 2, text_added = 100, text_removed = 30,
              stat_user = ''A'', percentage = 200 / 3\<rparr>,
            \<lparr>edits = 1, text_added = 50, text_removed = 0,
              stat_user = ''B'', percentage = 100 / 3\<rparr>]"
    by (simp add: aggregate_user_stats_def collect_user_stats_def count_change_def
        new_stats_def total_text_added_def percentage_of_def true_div_def sort_reverse_def)
  have b: "table_row \<lparr>edits = 2, text_added = 100, text_removed = 30,
                 stat_user = ''A'', percentage = 200 / 3\<rparr> =
       row_text_1 @ ''A'' @ row_text_2 @ ''A'' @ row_text_3 @ ''66.67'' @ row_text_4 @
       ''66.67'' @ row_text_5 @ ''2'' @ row_text_6 @ ''+100'' @ row_text_7 @ ''-30'' @ row_text_8"
    by (simp add: table_row_text format_2f_200_3 html_escape_def replace_char_def
        format_comma_def decimal.simps digit_char_def)
  have c: "decimal_value ''66.67'' \<noteq> (200 / 3 :: rat)"
    by (simp add: decimal_value_def digits_value_def)
  from a b c show ?thesis by simp
qed

text \<open>
  C9, amended. Every row writes the same text, the percentage in the format
  \<^verbatim>\<open>.2f\<close>, as the width of the bar and as the label. For a percentage that is not
  negative, as every percentage the aggregation returns is, this text has exactly two
  characters behind its point, and the number it denotes is the percentage rounded to
  hundredths, at most 0.005 away from it.
\<close>

theorem bar_width_is_rounded_percentage:
  "table_row ud =
     row_text_1 @ html_escape (stat_user ud) @ row_text_2 @ html_escape (stat_user ud) @
     row_text_3 @ format_2f (percentage ud) @ row_text_4 @ format_2f (percentage ud) @
     row_text_5 @ format_comma (edits ud) @ row_text_6 @ ''+'' @ format_comma (text_added ud) @
     row_text_7 @ ''-'' @ format_comma (text_removed ud) @ row_text_8
   \<and> (0 \<le> percentage ud \<longrightarrow>
        length (dropWhile (\<lambda>c. c \<noteq> CHR ''.'') (format_2f (percentage ud))) = 3
        \<and> decimal_value (format_2f (percentage ud)) =
            of_int (round_half_even (percentage ud * 100)) / 100
        \<and> \<bar>decimal_value (format_2f (percentage ud)) - percentage ud\<bar> \<le> 1 / 200)
   \<and> (aggregate_user_stats cd = Inr rows \<and> ud \<in> set rows \<longrightarrow> 0 \<le> percentage ud)"
proof -
  have "length (dropWhile (\<lambda>c. c \<noteq> CHR ''.'') (format_2f (percentage ud))) = 3
        \<and> decimal_value (format_2f (percentage ud)) =
            of_int (round_half_even (percentage ud * 100)) / 100
        \<and> \<bar>decimal_value (format_2f (percentage ud)) - percentage ud\<bar> \<le> 1 / 200"
    if "0 \<le> percentage ud"
    using that two_places_format_2f decimal_value_format_2f decimal_value_format_2f_near
    by blast
  with table_row_text [of ud] aggregated_percentage_nonneg [of cd rows ud]
  show ?thesis by blast
qed

theorem bar_width_is_rounded_percentage_witness:
  "0 \<le> percentage \<lparr>edits = 2, text_added = 100, text_removed = 30,
                       stat_user = ''A'', percentage = 200 / 3\<rparr>
   \<and> format_2f (percentage \<lparr>edits = 2, text_added = 100, text_removed = 30,
                       stat_user = ''A'', percentage = 200 / 3\<rparr>) = ''66.67''
   \<and> decimal_value (format_2f (percentage \<lparr>edits = 2, text_added = 100, text_removed = 30,
                       stat_user = ''A'', percentage = 200 / 3\<rparr>)) = 6667 / 100"
  using bar_width_is_rounded_percentage
    [of "\<lparr>edits = 2, text_added = 100, text_removed = 30,
                       stat_user = ''A'', percentage = 200 / 3\<rparr>"]
  by (simp add: format_2f_200_3 round_20000_3 decimal_value_def digits_value_def)

end
